theory Spec2Isabelle
  imports Complex_Main "HOL-Library.Word"
begin

section \<open>Bi-colour LED activity monitor: \<^verbatim>\<open>src/Software/ledIndicator.cpp\<close>\<close>

text \<open>
  The program samples the cumulative CPU counters, smooths the derived load and drives a
  two-colour LED: red while idle, green flashes on activity. This theory embeds the data
  and the functions of the source file and proves properties of them.

  Conventions of the embedding.
  \<^item> \<^verbatim>\<open>unsigned long long\<close> is \<open>64 word\<close>: addition and subtraction wrap around.
  \<^item> \<^verbatim>\<open>int\<close> and the millisecond counts are \<open>int\<close>; every value the program computes in
    them is far below \<open>2 ^ 31\<close>.
  \<^item> \<^verbatim>\<open>double\<close> is \<open>real\<close> together with a rounding operator \<open>rnd\<close>, a parameter of every
    function that computes in \<^verbatim>\<open>double\<close>: a literal \<open>c\<close> is \<open>rnd c\<close>, an operation is \<open>rnd\<close>
    of the exact result, a conversion from an integer is \<open>rnd\<close> of its value. With
    \<open>rnd = (\<lambda>x. x)\<close> the arithmetic is exact. The literals \<open>0.0\<close>, \<open>1.0\<close>, \<open>100.0\<close> and the
    small integers converted to \<^verbatim>\<open>double\<close> are written without \<open>rnd\<close>, being representable.
  \<^item> The calls into the pigpio library, the clock and the random generator are the
    program's environment: the hardware is a record of the values last commanded, clock
    readings and the results of reading \<^verbatim>\<open>/proc/stat\<close> are inputs, and the random source is
    a sequence of draws consumed in order.
\<close>

subsection \<open>Configuration (lines 32--55)\<close>

definition PIN_A :: int where "PIN_A = 16"
definition PIN_B :: int where "PIN_B = 26"

definition CHECK_INTERVAL_MS :: int where "CHECK_INTERVAL_MS = 25"
definition MIN_FLASH_DURATION_MS :: int where "MIN_FLASH_DURATION_MS = 12"
definition MAX_FLASH_DURATION_MS :: int where "MAX_FLASH_DURATION_MS = 50"

type_synonym rounding = "real \<Rightarrow> real"

definition ACTIVITY_THRESHOLD :: "rounding \<Rightarrow> real" where
  "ACTIVITY_THRESHOLD rnd = rnd (5 / 10)"
definition ACTIVITY_SMOOTHING :: "rounding \<Rightarrow> real" where
  "ACTIVITY_SMOOTHING rnd = rnd (5 / 10)"

definition GREEN_BRIGHTNESS :: int where "GREEN_BRIGHTNESS = 32"
definition PWM_FREQUENCY :: int where "PWM_FREQUENCY = 1000"

definition BASE_FLASH_CHANCE :: "rounding \<Rightarrow> real" where
  "BASE_FLASH_CHANCE rnd = rnd (25 / 100)"
definition CPU_SCALING :: "rounding \<Rightarrow> real" where
  "CPU_SCALING rnd = rnd (4 / 100)"
definition FLASH_VARIATION :: "rounding \<Rightarrow> real" where
  "FLASH_VARIATION rnd = rnd (3 / 10)"

definition MIN_PAUSE_BETWEEN_FLASHES_MS :: int where "MIN_PAUSE_BETWEEN_FLASHES_MS = 30"

subsection \<open>Conversions of C++\<close>

text \<open>\<^verbatim>\<open>(int)x\<close> for a \<^verbatim>\<open>double\<close> \<open>x\<close>: the fractional part is discarded.\<close>

definition double_to_int :: "real \<Rightarrow> int" where
  "double_to_int x = (if 0 \<le> x then \<lfloor>x\<rfloor> else \<lceil>x\<rceil>)"

text \<open>Integer division of C++ truncates towards zero.\<close>

definition int_div :: "int \<Rightarrow> int \<Rightarrow> int" where
  "int_div a b = sgn a * sgn b * (\<bar>a\<bar> div \<bar>b\<bar>)"

text \<open>Conversion of an \<^verbatim>\<open>unsigned long long\<close> to \<^verbatim>\<open>double\<close>.\<close>

definition ull_to_double :: "rounding \<Rightarrow> 64 word \<Rightarrow> real" where
  "ull_to_double rnd w = rnd (real (unat w))"

subsection \<open>CPU counters and the monitor (lines 63--71, 116--160)\<close>

record CPUStats =
  user :: "64 word"
  nice :: "64 word"
  system :: "64 word"
  idle :: "64 word"
  iowait :: "64 word"
  irq :: "64 word"
  softirq :: "64 word"

record CPUMonitor =
  lastStats :: CPUStats
  cpuLoad :: real
  initialized :: bool

text \<open>
  The constructor (line 123) reads the counters into \<open>lastStats\<close> and ignores whether the
  read succeeded: after a failed read the member keeps its indeterminate content \<open>uninit\<close>.
  The result of \<^verbatim>\<open>readCPUStats\<close> is an option: \<open>None\<close> when the file cannot be opened.
\<close>

definition CPUMonitor_init :: "CPUStats \<Rightarrow> CPUStats option \<Rightarrow> CPUMonitor" where
  "CPUMonitor_init uninit r =
     \<lparr>lastStats = (case r of None \<Rightarrow> uninit | Some s \<Rightarrow> s), cpuLoad = 0, initialized = False\<rparr>"

text \<open>The sum of the seven counters, as lines 140--143 compute it (wrapping).\<close>

definition total :: "CPUStats \<Rightarrow> 64 word" where
  "total s = user s + nice s + system s + idle s + iowait s + irq s + softirq s"

text \<open>\<^verbatim>\<open>getCPULoad\<close> (lines 127--159): the value returned and the monitor after the call.\<close>

definition getCPULoad :: "rounding \<Rightarrow> CPUStats option \<Rightarrow> CPUMonitor \<Rightarrow> real \<times> CPUMonitor" where
  "getCPULoad rnd r m =
     (case r of
        None \<Rightarrow> (cpuLoad m, m)
      | Some currentStats \<Rightarrow>
          if \<not> initialized m then (0, m\<lparr>initialized := True, lastStats := currentStats\<rparr>)
          else
            let last_total = total (lastStats m);
                curr_total = total currentStats;
                total_diff = curr_total - last_total;
                idle_diff = (idle currentStats + iowait currentStats)
                            - (idle (lastStats m) + iowait (lastStats m));
                m1 = m\<lparr>lastStats := currentStats\<rparr>
            in if total_diff = 0 then (cpuLoad m1, m1)
               else
                 let currentLoad =
                       rnd (100 * rnd (1 - rnd (ull_to_double rnd idle_diff
                                                / ull_to_double rnd total_diff)));
                     newLoad =
                       rnd (rnd (cpuLoad m1 * ACTIVITY_SMOOTHING rnd)
                            + rnd (currentLoad * rnd (1 - ACTIVITY_SMOOTHING rnd)))
                 in (newLoad, m1\<lparr>cpuLoad := newLoad\<rparr>))"

text \<open>A run of the sampler over a list of read results: the loads returned, in order.\<close>

fun sample_all :: "rounding \<Rightarrow> CPUStats option list \<Rightarrow> CPUMonitor \<Rightarrow> real list \<times> CPUMonitor" where
  "sample_all rnd [] m = ([], m)"
| "sample_all rnd (r # rs) m =
     (let (l, m1) = getCPULoad rnd r m; (ls, m2) = sample_all rnd rs m1 in (l # ls, m2))"

subsection \<open>The LED output (lines 74--88)\<close>

text \<open>
  The pigpio library is outside the repository. Its state is modelled as the values last
  commanded per pin: \<^verbatim>\<open>gpioWrite\<close> sets the level of a pin, \<^verbatim>\<open>gpioPWM\<close> its duty cycle,
  \<^verbatim>\<open>gpioSetMode\<close>, \<^verbatim>\<open>gpioSetPWMfrequency\<close> and \<^verbatim>\<open>gpioSetPWMrange\<close> its mode, frequency and
  range; \<^verbatim>\<open>gpioTerminate\<close> releases the library.
\<close>

record gpio =
  held :: bool
  pin_mode :: "int \<Rightarrow> int"
  level :: "int \<Rightarrow> int"
  dutycycle :: "int \<Rightarrow> int"
  pwm_frequency :: "int \<Rightarrow> int"
  pwm_range :: "int \<Rightarrow> int"

definition PI_OUTPUT :: int where "PI_OUTPUT = 1"

definition gpioWrite :: "int \<Rightarrow> int \<Rightarrow> gpio \<Rightarrow> gpio" where
  "gpioWrite pin v hw = hw\<lparr>level := (level hw)(pin := v)\<rparr>"

definition gpioPWM :: "int \<Rightarrow> int \<Rightarrow> gpio \<Rightarrow> gpio" where
  "gpioPWM pin v hw = hw\<lparr>dutycycle := (dutycycle hw)(pin := v)\<rparr>"

definition gpioSetMode :: "int \<Rightarrow> int \<Rightarrow> gpio \<Rightarrow> gpio" where
  "gpioSetMode pin v hw = hw\<lparr>pin_mode := (pin_mode hw)(pin := v)\<rparr>"

definition gpioSetPWMfrequency :: "int \<Rightarrow> int \<Rightarrow> gpio \<Rightarrow> gpio" where
  "gpioSetPWMfrequency pin v hw = hw\<lparr>pwm_frequency := (pwm_frequency hw)(pin := v)\<rparr>"

definition gpioSetPWMrange :: "int \<Rightarrow> int \<Rightarrow> gpio \<Rightarrow> gpio" where
  "gpioSetPWMrange pin v hw = hw\<lparr>pwm_range := (pwm_range hw)(pin := v)\<rparr>"

definition gpioTerminate :: "gpio \<Rightarrow> gpio" where
  "gpioTerminate hw = hw\<lparr>held := False\<rparr>"

definition setRed :: "gpio \<Rightarrow> gpio" where
  "setRed hw = gpioWrite PIN_B 0 (gpioWrite PIN_A 1 (gpioPWM PIN_B 0 hw))"

definition setGreen :: "gpio \<Rightarrow> gpio" where
  "setGreen hw = gpioPWM PIN_B GREEN_BRIGHTNESS (gpioWrite PIN_A 0 hw)"

definition setOff :: "gpio \<Rightarrow> gpio" where
  "setOff hw = gpioPWM PIN_B 0 (gpioWrite PIN_A 0 hw)"

text \<open>The three configurations of the two channels, as observations of the hardware.\<close>

definition shows_red :: "gpio \<Rightarrow> bool" where
  "shows_red hw \<longleftrightarrow> level hw PIN_A = 1 \<and> level hw PIN_B = 0 \<and> dutycycle hw PIN_B = 0"

definition shows_green :: "gpio \<Rightarrow> bool" where
  "shows_green hw \<longleftrightarrow> level hw PIN_A = 0 \<and> dutycycle hw PIN_B = GREEN_BRIGHTNESS"

definition shows_off :: "gpio \<Rightarrow> bool" where
  "shows_off hw \<longleftrightarrow> level hw PIN_A = 0 \<and> dutycycle hw PIN_B = 0"

subsection \<open>The state of \<^verbatim>\<open>main\<close> (lines 60, 199--208)\<close>

text \<open>
  Time points of the steady clock are counts of nanoseconds; \<open>ms_between\<close> is the
  \<^verbatim>\<open>duration_cast<milliseconds>(a - b).count()\<close> of lines 214--217, which truncates.
  \<open>gen\<close> is the number of draws taken from the random source so far.
\<close>

definition ms_between :: "int \<Rightarrow> int \<Rightarrow> int" where
  "ms_between a b = int_div (a - b) 1000000"

record program =
  running :: bool
  hw :: gpio
  monitor :: CPUMonitor
  gen :: nat
  isGreen :: bool
  flashTimer :: int
  lastFlashEndTime :: int
  currentFlashDuration :: int

subsection \<open>The duration of a flash (lines 228--235)\<close>

definition durationRange :: int where
  "durationRange = MAX_FLASH_DURATION_MS - MIN_FLASH_DURATION_MS"

text \<open>Line 232, for the draw \<open>r3\<close>.\<close>

definition randomVariation :: "rounding \<Rightarrow> real \<Rightarrow> int" where
  "randomVariation rnd r3 = double_to_int (rnd (rnd (real_of_int durationRange * rnd (3 / 10)) * r3))"

text \<open>The amount line 233 adds to the duration.\<close>

definition jitter :: "rounding \<Rightarrow> real \<Rightarrow> int" where
  "jitter rnd r3 = randomVariation rnd r3 - int_div (randomVariation rnd r3) 2"

text \<open>Line 230: the duration before the random amount is added.\<close>

definition baseDuration :: "rounding \<Rightarrow> real \<Rightarrow> int" where
  "baseDuration rnd load =
     (let cpuFactor = min 1 (rnd (load / 100))
      in MIN_FLASH_DURATION_MS + double_to_int (rnd (real_of_int durationRange * cpuFactor)))"

definition newFlashDuration :: "rounding \<Rightarrow> real \<Rightarrow> real \<Rightarrow> int" where
  "newFlashDuration rnd load r3 =
     max MIN_FLASH_DURATION_MS (min MAX_FLASH_DURATION_MS (baseDuration rnd load + jitter rnd r3))"

subsection \<open>One iteration of the loop (lines 211--241)\<close>

text \<open>
  \<open>tick rnd dis r currentTime st\<close> is the body of the loop for the read result \<open>r\<close> and the
  clock reading \<open>currentTime\<close>; \<open>dis k\<close> is the \<open>k\<close>-th draw of the random source. The console
  output and the sleep that end the body change nothing of the state.
\<close>

definition tick :: "rounding \<Rightarrow> (nat \<Rightarrow> real) \<Rightarrow> CPUStats option \<Rightarrow> int \<Rightarrow> program \<Rightarrow> program" where
  "tick rnd dis r currentTime st =
     (let (load, mon) = getCPULoad rnd r (monitor st);
          st1 = st\<lparr>monitor := mon\<rparr>;
          elapsed = ms_between currentTime (flashTimer st1);
          timeSinceLastFlash = ms_between currentTime (lastFlashEndTime st1)
      in if isGreen st1 \<and> elapsed > currentFlashDuration st1 then
           st1\<lparr>hw := setRed (hw st1), isGreen := False, lastFlashEndTime := currentTime\<rparr>
         else if \<not> isGreen st1 \<and> load > ACTIVITY_THRESHOLD rnd
                 \<and> timeSinceLastFlash > MIN_PAUSE_BETWEEN_FLASHES_MS then
           let randomFactor = rnd (rnd (5 / 10) + rnd (dis (gen st1) * FLASH_VARIATION rnd));
               flashProbability =
                 rnd (rnd (BASE_FLASH_CHANCE rnd * rnd (load * CPU_SCALING rnd)) * randomFactor);
               st2 = st1\<lparr>gen := gen st1 + 2\<rparr>
           in if dis (gen st1 + 1) < flashProbability then
                st2\<lparr>currentFlashDuration := newFlashDuration rnd load (dis (gen st1 + 2)),
                    gen := gen st1 + 3,
                    hw := setGreen (hw st2),
                    isGreen := True,
                    flashTimer := currentTime\<rparr>
              else st2
         else st1)"

subsection \<open>The signal handler and \<^verbatim>\<open>main\<close> (lines 91--99, 162--265)\<close>

text \<open>How the process ends: its exit status and the hardware it leaves behind.\<close>

datatype outcome = Exited int gpio | Looping program

definition signalHandler :: "int \<Rightarrow> program \<Rightarrow> outcome" where
  "signalHandler signum st =
     (let st1 = st\<lparr>running := False\<rparr>;
          st2 = st1\<lparr>hw := setOff (hw st1)\<rparr>;
          st3 = st2\<lparr>hw := gpioTerminate (hw st2)\<rparr>
      in Exited 0 (hw st3))"

text \<open>
  What happens to the process while it loops: an iteration with the read result and the
  clock reading it gets, or the delivery of a signal the program handles.
\<close>

datatype event = Tick "CPUStats option" int | Signal int

text \<open>
  The loop of lines 210--255 over a finite list of events, then lines 257--264: the test
  of \<open>running\<close> comes first in every iteration, and a cleared flag leads to the statements
  after the loop. The result is \<open>Looping st\<close> when the events are used up and the loop has
  not ended.
\<close>

fun main_loop :: "rounding \<Rightarrow> (nat \<Rightarrow> real) \<Rightarrow> event list \<Rightarrow> program \<Rightarrow> outcome" where
  "main_loop rnd dis [] st =
     (if running st then Looping st else Exited 0 (gpioTerminate (setOff (hw st))))"
| "main_loop rnd dis (Signal signum # evs) st =
     (if running st then signalHandler signum st else Exited 0 (gpioTerminate (setOff (hw st))))"
| "main_loop rnd dis (Tick r currentTime # evs) st =
     (if running st then main_loop rnd dis evs (tick rnd dis r currentTime st)
      else Exited 0 (gpioTerminate (setOff (hw st))))"

text \<open>The state with which \<^verbatim>\<open>main\<close> enters the loop (lines 186--208).\<close>

definition startup :: "gpio \<Rightarrow> CPUStats \<Rightarrow> CPUStats option \<Rightarrow> int \<Rightarrow> int \<Rightarrow> program" where
  "startup hw0 uninit r0 t0 t1 =
     (let hw1 = gpioSetMode PIN_A PI_OUTPUT (hw0\<lparr>held := True\<rparr>);
          hw2 = gpioSetMode PIN_B PI_OUTPUT hw1;
          hw3 = gpioSetPWMfrequency PIN_B PWM_FREQUENCY hw2;
          hw4 = gpioSetPWMrange PIN_B 255 hw3
      in \<lparr>running = True,
          hw = setRed hw4,
          monitor = CPUMonitor_init uninit r0,
          gen = 0,
          isGreen = False,
          flashTimer = t0,
          lastFlashEndTime = t1,
          currentFlashDuration = MIN_FLASH_DURATION_MS\<rparr>)"

text \<open>
  \<^verbatim>\<open>main\<close>: \<open>init_result\<close> is what \<^verbatim>\<open>gpioInitialise\<close> returns, \<open>hw0\<close> the hardware before the
  program touches it, \<open>r0\<close> the read of the constructor, \<open>t0\<close> and \<open>t1\<close> the clock readings of
  lines 206 and 207.
\<close>

definition main :: "rounding \<Rightarrow> (nat \<Rightarrow> real) \<Rightarrow> int \<Rightarrow> gpio \<Rightarrow> CPUStats \<Rightarrow> CPUStats option
    \<Rightarrow> int \<Rightarrow> int \<Rightarrow> event list \<Rightarrow> outcome" where
  "main rnd dis init_result hw0 uninit r0 t0 t1 evs =
     (if init_result < 0 then Exited 1 hw0
      else main_loop rnd dis evs (startup hw0 uninit r0 t0 t1))"

text \<open>The states the loop goes through on a list of iterations without a signal.\<close>

fun run_ticks :: "rounding \<Rightarrow> (nat \<Rightarrow> real) \<Rightarrow> (CPUStats option \<times> int) list \<Rightarrow> program \<Rightarrow> program" where
  "run_ticks rnd dis [] st = st"
| "run_ticks rnd dis ((r, t) # ts) st = run_ticks rnd dis ts (tick rnd dis r t st)"

subsection \<open>Notions used to state the properties\<close>

text \<open>
  What is assumed of the rounding of \<^verbatim>\<open>double\<close> arithmetic: it is monotone, and it leaves a
  number \<open>k / 2 ^ n\<close> with \<open>\<bar>k\<bar> \<le> 2 ^ 53\<close> and \<open>n \<le> 1000\<close> as it is. Both hold of the
  rounding of IEEE 754 binary64 in every rounding mode, and of exact arithmetic.
\<close>

definition binary64_rounding :: "rounding \<Rightarrow> bool" where
  "binary64_rounding rnd \<longleftrightarrow>
     (\<forall>x y. x \<le> y \<longrightarrow> rnd x \<le> rnd y) \<and>
     (\<forall>k n. \<bar>k\<bar> \<le> 2 ^ 53 \<and> n \<le> 1000 \<longrightarrow> rnd (real_of_int k / 2 ^ n) = real_of_int k / 2 ^ n)"

text \<open>No counter of \<open>a\<close> is above the same counter of \<open>b\<close>.\<close>

definition counters_le :: "CPUStats \<Rightarrow> CPUStats \<Rightarrow> bool" where
  "counters_le a b \<longleftrightarrow>
     user a \<le> user b \<and> nice a \<le> nice b \<and> system a \<le> system b \<and> idle a \<le> idle b \<and>
     iowait a \<le> iowait b \<and> irq a \<le> irq b \<and> softirq a \<le> softirq b"

text \<open>The seven counters add up without wrapping around.\<close>

definition sum_fits :: "CPUStats \<Rightarrow> bool" where
  "sum_fits s \<longleftrightarrow>
     unat (user s) + unat (nice s) + unat (system s) + unat (idle s) + unat (iowait s)
       + unat (irq s) + unat (softirq s) < 2 ^ 64"

text \<open>The snapshots among a list of read results.\<close>

fun snapshots :: "CPUStats option list \<Rightarrow> CPUStats list" where
  "snapshots [] = []"
| "snapshots (None # rs) = snapshots rs"
| "snapshots (Some s # rs) = s # snapshots rs"

text \<open>A snapshot with all counters zero.\<close>

definition zeroStats :: CPUStats where
  "zeroStats = \<lparr>user = 0, nice = 0, system = 0, idle = 0, iowait = 0, irq = 0, softirq = 0\<rparr>"

text \<open>Exact arithmetic, a random source whose draws are all \<open>0\<close>, and hardware not yet touched.\<close>

definition exact :: rounding where
  "exact x = x"

definition all_zero_draws :: "nat \<Rightarrow> real" where
  "all_zero_draws k = 0"

definition untouched :: gpio where
  "untouched = \<lparr>held = False, pin_mode = (\<lambda>p. 0), level = (\<lambda>p. 0), dutycycle = (\<lambda>p. 0),
                 pwm_frequency = (\<lambda>p. 0), pwm_range = (\<lambda>p. 0)\<rparr>"

text \<open>
  The invariant of the sampler along a run: the smoothed load is in range, and the
  snapshots still to come continue the stored one without a counter going down or a sum
  wrapping around.
\<close>

definition sampler_inv :: "CPUMonitor \<Rightarrow> CPUStats list \<Rightarrow> bool" where
  "sampler_inv m ss \<longleftrightarrow>
     0 \<le> cpuLoad m \<and> cpuLoad m \<le> 100 \<and>
     (let ss' = (if initialized m then lastStats m # ss else ss)
      in sorted_wrt counters_le ss' \<and> list_all sum_fits ss')"

text \<open>The process has ended with status \<open>0\<close>, both channels off and the library released.\<close>

fun clean_exit :: "outcome \<Rightarrow> bool" where
  "clean_exit (Exited status h) = (status = 0 \<and> shows_off h \<and> \<not> held h)"
| "clean_exit (Looping st) = False"

text \<open>
  Two states the program reaches with exact arithmetic and draws that are all \<open>0\<close>, from
  hardware not yet touched and clock readings \<open>0\<close>: after the calibrating read at 25 ms,
  and in the middle of the flash that a load of 50 starts at 50 ms.
\<close>

definition calibrated :: program where
  "calibrated = run_ticks exact all_zero_draws [(Some zeroStats, 25000000)]
     (startup untouched zeroStats None 0 0)"

definition flashing :: program where
  "flashing = run_ticks exact all_zero_draws
     [(Some zeroStats, 25000000), (Some (zeroStats\<lparr>user := 50\<rparr>), 50000000)]
     (startup untouched zeroStats None 0 0)"

section \<open>Properties\<close>

subsection \<open>Rounding\<close>

lemma exact_binary64: "binary64_rounding exact"
  by (simp add: binary64_rounding_def exact_def)

lemma rnd_mono: "binary64_rounding rnd \<Longrightarrow> x \<le> y \<Longrightarrow> rnd x \<le> rnd y"
  by (simp add: binary64_rounding_def)

lemma rnd_dyadic:
  assumes "binary64_rounding rnd" "\<bar>k\<bar> \<le> 2 ^ 53" "n \<le> 1000"
  shows "rnd (real_of_int k / 2 ^ n) = real_of_int k / 2 ^ n"
  using assms unfolding binary64_rounding_def by blast

lemma rnd_int:
  assumes "binary64_rounding rnd" "\<bar>k\<bar> \<le> 2 ^ 53"
  shows "rnd (real_of_int k) = real_of_int k"
  using rnd_dyadic [OF assms(1) assms(2), of 0] by simp

lemma rnd_0: "binary64_rounding rnd \<Longrightarrow> rnd 0 = 0"
  using rnd_int [of rnd 0] by simp

lemma rnd_1: "binary64_rounding rnd \<Longrightarrow> rnd 1 = 1"
  using rnd_int [of rnd 1] by simp

lemma rnd_50: "binary64_rounding rnd \<Longrightarrow> rnd 50 = 50"
  using rnd_int [of rnd 50] by simp

lemma rnd_100: "binary64_rounding rnd \<Longrightarrow> rnd 100 = 100"
  using rnd_int [of rnd 100] by simp

lemma rnd_half: "binary64_rounding rnd \<Longrightarrow> rnd (1 / 2) = 1 / 2"
  using rnd_dyadic [of rnd 1 1] by simp

lemma rnd_between:
  assumes "binary64_rounding rnd" "rnd a = a" "rnd b = b" "a \<le> x" "x \<le> b"
  shows "a \<le> rnd x \<and> rnd x \<le> b"
  using rnd_mono [OF assms(1) assms(4)] rnd_mono [OF assms(1) assms(5)] assms(2,3) by simp

subsection \<open>The differences of the counters\<close>

lemma unat_total:
  assumes "sum_fits s"
  shows "unat (total s) = unat (user s) + unat (nice s) + unat (system s) + unat (idle s)
           + unat (iowait s) + unat (irq s) + unat (softirq s)"
proof -
  let ?B = "2 ^ 64 :: nat"
  have b: "unat (user s) + unat (nice s) + unat (system s) + unat (idle s) + unat (iowait s)
             + unat (irq s) + unat (softirq s) < ?B"
    using assms by (simp add: sum_fits_def)
  have 1: "unat (user s + nice s) = unat (user s) + unat (nice s)"
    using b by (intro unat_add_lem [THEN iffD1]) simp
  have 2: "unat (user s + nice s + system s) = unat (user s) + unat (nice s) + unat (system s)"
    using b 1 by (subst unat_add_lem [THEN iffD1]) simp_all
  have 3: "unat (user s + nice s + system s + idle s)
             = unat (user s) + unat (nice s) + unat (system s) + unat (idle s)"
    using b 2 by (subst unat_add_lem [THEN iffD1]) simp_all
  have 4: "unat (user s + nice s + system s + idle s + iowait s)
             = unat (user s) + unat (nice s) + unat (system s) + unat (idle s) + unat (iowait s)"
    using b 3 by (subst unat_add_lem [THEN iffD1]) simp_all
  have 5: "unat (user s + nice s + system s + idle s + iowait s + irq s)
             = unat (user s) + unat (nice s) + unat (system s) + unat (idle s) + unat (iowait s)
               + unat (irq s)"
    using b 4 by (subst unat_add_lem [THEN iffD1]) simp_all
  have 6: "unat (user s + nice s + system s + idle s + iowait s + irq s + softirq s)
             = unat (user s) + unat (nice s) + unat (system s) + unat (idle s) + unat (iowait s)
               + unat (irq s) + unat (softirq s)"
    using b 5 by (subst unat_add_lem [THEN iffD1]) simp_all
  show ?thesis using 6 by (simp add: total_def)
qed

lemma unat_idle_iowait:
  assumes "sum_fits s"
  shows "unat (idle s + iowait s) = unat (idle s) + unat (iowait s)"
  using assms by (intro unat_add_lem [THEN iffD1]) (simp add: sum_fits_def)

lemma idle_diff_le_total_diff:
  assumes le: "counters_le a b" and fa: "sum_fits a" and fb: "sum_fits b"
  shows "unat ((idle b + iowait b) - (idle a + iowait a)) \<le> unat (total b - total a)"
proof -
  have m: "unat (user a) \<le> unat (user b)" "unat (nice a) \<le> unat (nice b)"
    "unat (system a) \<le> unat (system b)" "unat (idle a) \<le> unat (idle b)"
    "unat (iowait a) \<le> unat (iowait b)" "unat (irq a) \<le> unat (irq b)"
    "unat (softirq a) \<le> unat (softirq b)"
    using le by (simp_all add: counters_le_def word_le_nat_alt)
  have ii: "idle a + iowait a \<le> idle b + iowait b"
    using m by (simp add: word_le_nat_alt unat_idle_iowait [OF fa] unat_idle_iowait [OF fb])
  have tt: "total a \<le> total b"
    using m by (simp add: word_le_nat_alt unat_total [OF fa] unat_total [OF fb])
  have "unat ((idle b + iowait b) - (idle a + iowait a))
          = (unat (idle b) + unat (iowait b)) - (unat (idle a) + unat (iowait a))"
    using unat_sub [OF ii] by (simp add: unat_idle_iowait [OF fa] unat_idle_iowait [OF fb])
  moreover have "unat (total b - total a) = unat (total b) - unat (total a)"
    using unat_sub [OF tt] by simp
  ultimately show ?thesis
    using m by (simp add: unat_total [OF fa] unat_total [OF fb])
qed

text \<open>The arithmetic of lines 155--156.\<close>

lemma smoothing_step_bounds:
  assumes r: "binary64_rounding rnd"
    and l: "0 \<le> l" "l \<le> 100"
    and d: "i \<le> t" "t \<noteq> 0"
  shows "0 \<le> rnd (rnd (l * ACTIVITY_SMOOTHING rnd)
                 + rnd (rnd (100 * rnd (1 - rnd (ull_to_double rnd i / ull_to_double rnd t)))
                        * rnd (1 - ACTIVITY_SMOOTHING rnd)))
       \<and> rnd (rnd (l * ACTIVITY_SMOOTHING rnd)
                 + rnd (rnd (100 * rnd (1 - rnd (ull_to_double rnd i / ull_to_double rnd t)))
                        * rnd (1 - ACTIVITY_SMOOTHING rnd))) \<le> 100"
proof -
  note z = rnd_0 [OF r] and o = rnd_1 [OF r] and f = rnd_50 [OF r] and h = rnd_100 [OF r]
    and hf = rnd_half [OF r]
  define a where "a = ull_to_double rnd i"
  define b where "b = ull_to_double rnd t"
  have "0 < unat t" using d(2) by (simp add: unat_gt_0)
  then have "1 \<le> real (unat t)" by (simp del: of_nat_unat)
  then have b1: "1 \<le> b" using rnd_mono [OF r, of 1 "real (unat t)"] o
    by (simp add: b_def ull_to_double_def del: of_nat_unat)
  have a0: "0 \<le> a" using rnd_mono [OF r, of 0 "real (unat i)"] z
    by (simp add: a_def ull_to_double_def del: of_nat_unat)
  have "unat i \<le> unat t" using d(1) by (simp add: word_le_nat_alt)
  then have ab: "a \<le> b" using rnd_mono [OF r, of "real (unat i)" "real (unat t)"]
    by (simp add: a_def b_def ull_to_double_def del: of_nat_unat)
  have q: "0 \<le> a / b \<and> a / b \<le> 1" using a0 ab b1 by simp
  define q where "q = rnd (a / b)"
  have q01: "0 \<le> q \<and> q \<le> 1" unfolding q_def
    using rnd_between [OF r z o] q by blast
  define c where "c = rnd (1 - q)"
  have c01: "0 \<le> c \<and> c \<le> 1" unfolding c_def
    using rnd_between [OF r z o, of "1 - q"] q01 by simp
  define cl where "cl = rnd (100 * c)"
  have cl: "0 \<le> cl \<and> cl \<le> 100" unfolding cl_def
    using rnd_between [OF r z h, of "100 * c"] c01 by simp
  have s1: "ACTIVITY_SMOOTHING rnd = 1 / 2"
    using hf by (simp add: ACTIVITY_SMOOTHING_def)
  have "1 - (1 / 2 :: real) = 1 / 2" by simp
  then have s2: "rnd (1 - ACTIVITY_SMOOTHING rnd) = 1 / 2"
    using hf by (simp only: s1)
  note s = s1 s2
  define x where "x = rnd (l * (1 / 2))"
  have x: "0 \<le> x \<and> x \<le> 50" unfolding x_def
    using rnd_between [OF r z f, of "l * (1 / 2)"] l by simp
  define y where "y = rnd (cl * (1 / 2))"
  have y: "0 \<le> y \<and> y \<le> 50" unfolding y_def
    using rnd_between [OF r z f, of "cl * (1 / 2)"] cl by simp
  have "0 \<le> rnd (x + y) \<and> rnd (x + y) \<le> 100"
    using rnd_between [OF r z h, of "x + y"] x y by simp
  then show ?thesis
    unfolding s1 x_def y_def cl_def c_def q_def a_def b_def by (simp add: hf)
qed

subsection \<open>The sampler\<close>

lemma getCPULoad_None: "getCPULoad rnd None m = (cpuLoad m, m)"
  by (simp add: getCPULoad_def)

lemma getCPULoad_first:
  "\<not> initialized m \<Longrightarrow>
     getCPULoad rnd (Some s) m = (0, m\<lparr>initialized := True, lastStats := s\<rparr>)"
  by (simp add: getCPULoad_def)

lemma getCPULoad_returns_cpuLoad:
  "initialized m \<Longrightarrow> fst (getCPULoad rnd r m) = cpuLoad (snd (getCPULoad rnd r m))"
  by (simp add: getCPULoad_def Let_def split: option.splits)

lemma getCPULoad_lastStats:
  "lastStats (snd (getCPULoad rnd (Some s) m)) = s \<and> initialized (snd (getCPULoad rnd (Some s) m))"
  by (simp add: getCPULoad_def Let_def)

lemma getCPULoad_step_bounds:
  assumes r: "binary64_rounding rnd"
    and l: "0 \<le> cpuLoad m" "cpuLoad m \<le> 100"
    and i: "initialized m"
    and c: "counters_le (lastStats m) s" "sum_fits (lastStats m)" "sum_fits s"
  shows "0 \<le> cpuLoad (snd (getCPULoad rnd (Some s) m))
       \<and> cpuLoad (snd (getCPULoad rnd (Some s) m)) \<le> 100"
proof (cases "total s - total (lastStats m) = 0")
  case True
  then show ?thesis using l i by (simp add: getCPULoad_def Let_def)
next
  case False
  have le: "(idle s + iowait s) - (idle (lastStats m) + iowait (lastStats m))
              \<le> total s - total (lastStats m)"
    using idle_diff_le_total_diff [OF c] by (simp add: word_le_nat_alt)
  show ?thesis
    using smoothing_step_bounds [OF r l le False] False i
    by (simp add: getCPULoad_def Let_def)
qed

lemma sampler_inv_step:
  assumes r: "binary64_rounding rnd" and inv: "sampler_inv m (snapshots (x # rs))"
  shows "sampler_inv (snd (getCPULoad rnd x m)) (snapshots rs)
       \<and> 0 \<le> fst (getCPULoad rnd x m) \<and> fst (getCPULoad rnd x m) \<le> 100"
proof (cases x)
  case None
  then show ?thesis using inv by (simp add: getCPULoad_None sampler_inv_def)
next
  case (Some s)
  show ?thesis
  proof (cases "initialized m")
    case False
    then show ?thesis using inv Some
      by (simp add: getCPULoad_first sampler_inv_def)
  next
    case True
    have l: "0 \<le> cpuLoad m" "cpuLoad m \<le> 100" using inv by (simp_all add: sampler_inv_def)
    have c: "counters_le (lastStats m) s" "sum_fits (lastStats m)" "sum_fits s"
      using inv True Some by (simp_all add: sampler_inv_def)
    have rest: "sorted_wrt counters_le (s # snapshots rs) \<and> list_all sum_fits (s # snapshots rs)"
      using inv True Some by (simp add: sampler_inv_def)
    note b = getCPULoad_step_bounds [OF r l True c]
    have "sampler_inv (snd (getCPULoad rnd (Some s) m)) (snapshots rs)"
      unfolding sampler_inv_def using b rest getCPULoad_lastStats [of rnd s m]
      by (simp add: Let_def)
    then show ?thesis
      using b getCPULoad_returns_cpuLoad [OF True, of rnd "Some s"] Some by simp
  qed
qed

lemma sample_all_bounds:
  assumes r: "binary64_rounding rnd"
  shows "sampler_inv m (snapshots rs) \<Longrightarrow>
         (\<forall>l \<in> set (fst (sample_all rnd rs m)). 0 \<le> l \<and> l \<le> 100)
         \<and> 0 \<le> cpuLoad (snd (sample_all rnd rs m)) \<and> cpuLoad (snd (sample_all rnd rs m)) \<le> 100"
proof (induction rs arbitrary: m)
  case Nil
  then show ?case by (simp add: sampler_inv_def)
next
  case (Cons x rs)
  note st = sampler_inv_step [OF r Cons.prems]
  from st have inv': "sampler_inv (snd (getCPULoad rnd x m)) (snapshots rs)" by simp
  note ih = Cons.IH [OF inv']
  show ?case using st ih
    by (simp add: case_prod_unfold Let_def)
qed

lemma sample_all_failures:
  "sample_all rnd (replicate n None) m = (replicate n (cpuLoad m), m)"
  by (induction n) (simp_all add: getCPULoad_None)

lemma sample_all_append:
  "sample_all rnd (xs @ ys) m =
     (fst (sample_all rnd xs m) @ fst (sample_all rnd ys (snd (sample_all rnd xs m))),
      snd (sample_all rnd ys (snd (sample_all rnd xs m))))"
  by (induction xs arbitrary: m) (simp_all add: case_prod_unfold Let_def)

lemma getCPULoad_uninitialized_zero:
  "\<not> initialized m \<Longrightarrow> cpuLoad m = 0 \<Longrightarrow> fst (getCPULoad rnd r m) = 0"
  by (cases r) (simp_all add: getCPULoad_None getCPULoad_first)

text \<open>
  When the sum of the counters wraps around, the load leaves the range whatever the
  rounding: every number of the computation is representable.
\<close>

lemma wrapped_sum_any_rounding:
  assumes r: "binary64_rounding rnd"
  shows "fst (sample_all rnd [Some zeroStats, Some (zeroStats\<lparr>user := 18446744073709551613, idle := 5\<rparr>)]
            (CPUMonitor_init zeroStats None)) = [0, - 75]"
proof -
  have f: "rnd 5 = 5" "rnd 2 = 2" "rnd (- 150) = - 150" "rnd (- 75) = - 75" "rnd 0 = 0"
    using rnd_int [OF r, of 5] rnd_int [OF r, of 2] rnd_int [OF r, of "- 150"]
      rnd_int [OF r, of "- 75"] rnd_int [OF r, of 0] by simp_all
  have h: "rnd (5 / 2) = 5 / 2" "rnd (- (3 / 2)) = - (3 / 2)" "rnd (1 / 2) = 1 / 2"
    using rnd_dyadic [OF r, of 5 1] rnd_dyadic [OF r, of "- 3" 1] rnd_dyadic [OF r, of 1 1]
    by simp_all
  show ?thesis
    by (simp add: getCPULoad_def CPUMonitor_init_def zeroStats_def total_def
        ull_to_double_def ACTIVITY_SMOOTHING_def Let_def f h)
qed

subsection \<open>The LED output\<close>

lemma setRed_shows_red: "shows_red (setRed h)"
  by (simp add: shows_red_def setRed_def gpioWrite_def gpioPWM_def PIN_A_def PIN_B_def)

lemma setGreen_shows_green: "shows_green (setGreen h)"
  by (simp add: shows_green_def setGreen_def gpioWrite_def gpioPWM_def PIN_A_def PIN_B_def)

lemma setOff_shows_off: "shows_off (setOff h)"
  by (simp add: shows_off_def setOff_def gpioWrite_def gpioPWM_def PIN_A_def PIN_B_def)

lemma released_off: "shows_off (gpioTerminate (setOff h)) \<and> \<not> held (gpioTerminate (setOff h))"
  using setOff_shows_off [of h] by (simp add: gpioTerminate_def shows_off_def)

subsection \<open>The duration of a flash\<close>

lemma durationRange_val: "durationRange = 38"
  by (simp add: durationRange_def MAX_FLASH_DURATION_MS_def MIN_FLASH_DURATION_MS_def)

lemma randomVariation_range:
  assumes r: "binary64_rounding rnd" and d: "0 \<le> r3" "r3 < 1"
  shows "0 \<le> randomVariation rnd r3 \<and> randomVariation rnd r3 \<le> 11"
proof -
  have q: "rnd (1 / 4) = 1 / 4" using rnd_dyadic [OF r, of 1 2] by simp
  have s: "rnd (5 / 16) = 5 / 16" using rnd_dyadic [OF r, of 5 4] by simp
  have e: "rnd (95 / 8) = 95 / 8" using rnd_dyadic [OF r, of 95 3] by simp
  note z = rnd_0 [OF r]
  define c0 where "c0 = rnd (3 / 10)"
  have c0: "1 / 4 \<le> c0 \<and> c0 \<le> 5 / 16"
    unfolding c0_def using rnd_between [OF r q s, of "3 / 10"] by simp
  define c1 where "c1 = rnd (38 * c0)"
  have c1: "0 \<le> c1 \<and> c1 \<le> 95 / 8"
    unfolding c1_def using rnd_between [OF r z e, of "38 * c0"] c0 by simp
  have "0 \<le> c1 * r3" using c1 d by simp
  moreover have "c1 * r3 \<le> c1 * 1" using c1 d by (intro mult_left_mono) simp_all
  ultimately have p: "0 \<le> c1 * r3 \<and> c1 * r3 \<le> 95 / 8" using c1 by simp
  define c2 where "c2 = rnd (c1 * r3)"
  have c2: "0 \<le> c2 \<and> c2 \<le> 95 / 8"
    unfolding c2_def using rnd_between [OF r z e, of "c1 * r3"] p by simp
  have "\<lfloor>c2\<rfloor> \<le> 11" using c2 by (simp add: floor_le_iff)
  moreover have "0 \<le> \<lfloor>c2\<rfloor>" using c2 by simp
  ultimately have "0 \<le> double_to_int c2 \<and> double_to_int c2 \<le> 11"
    using c2 by (simp add: double_to_int_def)
  then show ?thesis
    by (simp add: randomVariation_def durationRange_val c2_def c1_def c0_def)
qed

lemma int_div_nonneg: "0 \<le> a \<Longrightarrow> int_div a 2 = a div 2"
  by (cases "a = 0") (simp_all add: int_div_def)

text \<open>
  For every draw in \<open>[0, 1)\<close> the amount added is half of \<open>randomVariation\<close> rounded up,
  between \<open>0\<close> and \<open>6\<close>: it is never negative.
\<close>

lemma jitter_never_negative:
  assumes "binary64_rounding rnd" and "0 \<le> r3" and "r3 < 1"
  shows "0 \<le> jitter rnd r3 \<and> jitter rnd r3 \<le> 6
       \<and> jitter rnd r3 = (randomVariation rnd r3 + 1) div 2"
proof -
  define v where "v = randomVariation rnd r3"
  have v: "0 \<le> v \<and> v \<le> 11"
    unfolding v_def by (rule randomVariation_range [OF assms])
  then have "int_div v 2 = v div 2" by (simp add: int_div_nonneg)
  then have j: "jitter rnd r3 = v - v div 2" by (simp add: jitter_def v_def)
  have b: "0 \<le> v - v div 2 \<and> v - v div 2 \<le> 6 \<and> v - v div 2 = (v + 1) div 2"
    using v by presburger
  show ?thesis unfolding j v_def [symmetric] by (rule b)
qed

text \<open>
  Hence the lower clamp of line 234 never takes effect: for a load that is not negative
  the base duration is at least \<open>MIN_FLASH_DURATION_MS\<close>, and nothing is ever subtracted
  from it.
\<close>

lemma baseDuration_lower:
  assumes r: "binary64_rounding rnd" and l: "0 \<le> load"
  shows "MIN_FLASH_DURATION_MS \<le> baseDuration rnd load"
proof -
  note z = rnd_0 [OF r]
  have "0 \<le> load / 100" using l by simp
  then have "0 \<le> rnd (load / 100)" using rnd_mono [OF r, of 0 "load / 100"] z by simp
  then have "0 \<le> 38 * min 1 (rnd (load / 100))" by simp
  then have "0 \<le> rnd (38 * min 1 (rnd (load / 100)))"
    using rnd_mono [OF r, of 0 "38 * min 1 (rnd (load / 100))"] z by simp
  then have "0 \<le> double_to_int (rnd (38 * min 1 (rnd (load / 100))))"
    by (simp add: double_to_int_def)
  then show ?thesis by (simp add: baseDuration_def durationRange_val Let_def)
qed

lemma lower_clamp_never_binds:
  assumes r: "binary64_rounding rnd" and l: "0 \<le> load" and d: "0 \<le> r3" "r3 < 1"
  shows "MIN_FLASH_DURATION_MS \<le> baseDuration rnd load + jitter rnd r3
       \<and> newFlashDuration rnd load r3
           = min MAX_FLASH_DURATION_MS (baseDuration rnd load + jitter rnd r3)"
proof -
  have a: "MIN_FLASH_DURATION_MS \<le> baseDuration rnd load + jitter rnd r3"
    using baseDuration_lower [OF r l] jitter_never_negative [OF r d] by simp
  have m: "MIN_FLASH_DURATION_MS \<le> MAX_FLASH_DURATION_MS"
    by (simp add: MIN_FLASH_DURATION_MS_def MAX_FLASH_DURATION_MS_def)
  show ?thesis using a m by (simp add: newFlashDuration_def)
qed

text \<open>For the draw \<open>1023 / 1024\<close> the amount added is \<open>6\<close> whatever the rounding.\<close>

lemma jitter_six_any_rounding:
  assumes r: "binary64_rounding rnd"
  shows "jitter rnd (1023 / 1024) = 6"
proof -
  have lo: "rnd (307 / 1024) = 307 / 1024" using rnd_dyadic [OF r, of 307 10] by simp
  have hi: "rnd (308 / 1024) = 308 / 1024" using rnd_dyadic [OF r, of 308 10] by simp
  have lo1: "rnd (11666 / 1024) = 11666 / 1024" using rnd_dyadic [OF r, of 11666 10] by simp
  have hi1: "rnd (11704 / 1024) = 11704 / 1024" using rnd_dyadic [OF r, of 11704 10] by simp
  have e11: "rnd 11 = 11" using rnd_int [OF r, of 11] by simp
  have e23: "rnd (23 / 2) = 23 / 2" using rnd_dyadic [OF r, of 23 1] by simp
  define c0 where "c0 = rnd (3 / 10)"
  have c0: "307 / 1024 \<le> c0 \<and> c0 \<le> 308 / 1024"
    unfolding c0_def using rnd_between [OF r lo hi, of "3 / 10"] by simp
  define c1 where "c1 = rnd (38 * c0)"
  have c1: "11666 / 1024 \<le> c1 \<and> c1 \<le> 11704 / 1024"
    unfolding c1_def using rnd_between [OF r lo1 hi1, of "38 * c0"] c0 by simp
  define c2 where "c2 = rnd (c1 * (1023 / 1024))"
  have c2: "11 \<le> c2 \<and> c2 \<le> 23 / 2"
    unfolding c2_def using rnd_between [OF r e11 e23, of "c1 * (1023 / 1024)"] c1 by simp
  have "\<lfloor>c2\<rfloor> = 11" using c2 by (simp add: floor_eq_iff)
  then have "double_to_int c2 = 11" using c2 by (simp add: double_to_int_def)
  then have "randomVariation rnd (1023 / 1024) = 11"
    by (simp add: randomVariation_def durationRange_val c2_def c1_def c0_def)
  then show ?thesis by (simp add: jitter_def int_div_def)
qed

lemma newFlashDuration_range:
  "MIN_FLASH_DURATION_MS \<le> newFlashDuration rnd load r3
   \<and> newFlashDuration rnd load r3 \<le> MAX_FLASH_DURATION_MS"
  by (simp add: newFlashDuration_def MIN_FLASH_DURATION_MS_def MAX_FLASH_DURATION_MS_def)

subsection \<open>One iteration and runs of the loop\<close>

lemma tick_unfold:
  "tick rnd dis r t st =
     (let load = fst (getCPULoad rnd r (monitor st));
          st1 = st\<lparr>monitor := snd (getCPULoad rnd r (monitor st))\<rparr>
      in if isGreen st \<and> ms_between t (flashTimer st) > currentFlashDuration st then
           st1\<lparr>hw := setRed (hw st), isGreen := False, lastFlashEndTime := t\<rparr>
         else if \<not> isGreen st \<and> load > ACTIVITY_THRESHOLD rnd
                 \<and> ms_between t (lastFlashEndTime st) > MIN_PAUSE_BETWEEN_FLASHES_MS then
           (if dis (gen st + 1)
                 < rnd (rnd (BASE_FLASH_CHANCE rnd * rnd (load * CPU_SCALING rnd))
                        * rnd (rnd (5 / 10) + rnd (dis (gen st) * FLASH_VARIATION rnd))) then
              st1\<lparr>currentFlashDuration := newFlashDuration rnd load (dis (gen st + 2)),
                  gen := gen st + 3,
                  hw := setGreen (hw st),
                  isGreen := True,
                  flashTimer := t\<rparr>
            else st1\<lparr>gen := gen st + 2\<rparr>)
         else st1)"
  by (simp add: tick_def case_prod_unfold Let_def)

lemma tick_running: "running (tick rnd dis r t st) = running st"
  by (simp add: tick_unfold Let_def)

lemma tick_duration_range:
  assumes "MIN_FLASH_DURATION_MS \<le> currentFlashDuration st
         \<and> currentFlashDuration st \<le> MAX_FLASH_DURATION_MS"
  shows "MIN_FLASH_DURATION_MS \<le> currentFlashDuration (tick rnd dis r t st)
       \<and> currentFlashDuration (tick rnd dis r t st) \<le> MAX_FLASH_DURATION_MS"
  using assms newFlashDuration_range [of rnd "fst (getCPULoad rnd r (monitor st))" "dis (gen st + 2)"]
  by (simp add: tick_unfold Let_def)

lemma run_ticks_duration_range:
  "MIN_FLASH_DURATION_MS \<le> currentFlashDuration st
     \<and> currentFlashDuration st \<le> MAX_FLASH_DURATION_MS \<Longrightarrow>
   MIN_FLASH_DURATION_MS \<le> currentFlashDuration (run_ticks rnd dis ts st)
     \<and> currentFlashDuration (run_ticks rnd dis ts st) \<le> MAX_FLASH_DURATION_MS"
proof (induction ts arbitrary: st)
  case Nil
  then show ?case by simp
next
  case (Cons x ts)
  obtain r t where x: "x = (r, t)" by (cases x)
  show ?case using Cons.IH [OF tick_duration_range [OF Cons.prems]] x by simp
qed

lemma startup_duration: "currentFlashDuration (startup hw0 uninit r0 t0 t1) = MIN_FLASH_DURATION_MS"
  by (simp add: startup_def Let_def)

lemma startup_idle_red:
  "\<not> isGreen (startup hw0 uninit r0 t0 t1) \<and> shows_red (hw (startup hw0 uninit r0 t0 t1))"
  by (simp add: startup_def Let_def setRed_shows_red)

lemma threshold_positive: "binary64_rounding rnd \<Longrightarrow> ACTIVITY_THRESHOLD rnd = 1 / 2"
  using rnd_half [of rnd] by (simp add: ACTIVITY_THRESHOLD_def)

subsection \<open>The ways the process ends\<close>

lemma signalHandler_clean: "clean_exit (signalHandler signum st)"
  using released_off [of "hw st"] by (simp add: signalHandler_def Let_def)

lemma main_loop_stopped: "\<not> running st \<Longrightarrow> clean_exit (main_loop rnd dis evs st)"
  using released_off [of "hw st"] by (cases "(rnd, dis, evs, st)" rule: main_loop.cases) simp_all

lemma main_loop_signal:
  "running st \<Longrightarrow>
   clean_exit (main_loop rnd dis (map (\<lambda>(r, t). Tick r t) ts @ Signal signum # evs) st)"
proof (induction ts arbitrary: st)
  case Nil
  then show ?case using signalHandler_clean [of signum st] by simp
next
  case (Cons x ts)
  obtain r t where x: "x = (r, t)" by (cases x)
  have "running (tick rnd dis r t st)" using Cons.prems by (simp add: tick_running)
  from Cons.IH [OF this] show ?case using Cons.prems x by simp
qed

lemma main_loop_exits_clean:
  "main_loop rnd dis evs st = Exited c h \<Longrightarrow> clean_exit (Exited c h)"
proof (induction evs arbitrary: st)
  case Nil
  then show ?case using main_loop_stopped [of st rnd dis "[]"]
    by (cases "running st") simp_all
next
  case (Cons e evs)
  show ?case
  proof (cases "running st")
    case False
    then show ?thesis using main_loop_stopped [of st rnd dis "e # evs"] Cons.prems by simp
  next
    case True
    show ?thesis
    proof (cases e)
      case (Tick r t)
      then show ?thesis using Cons.IH [of "tick rnd dis r t st"] Cons.prems True by simp
    next
      case (Signal n)
      then show ?thesis using signalHandler_clean [of n st] Cons.prems True by simp
    qed
  qed
qed

lemma startup_running: "running (startup hw0 uninit r0 t0 t1)"
  by (simp add: startup_def Let_def)

subsection \<open>Two reachable states\<close>

lemma calibrated_eval:
  "calibrated =
     (startup untouched zeroStats None 0 0)
       \<lparr>monitor := \<lparr>lastStats = zeroStats, cpuLoad = 0, initialized = True\<rparr>\<rparr>"
  by (simp add: calibrated_def tick_unfold startup_def getCPULoad_def CPUMonitor_init_def
      ACTIVITY_THRESHOLD_def exact_def Let_def)

lemma calibrated_fields:
  "\<not> isGreen calibrated \<and> running calibrated \<and> lastFlashEndTime calibrated = 0
   \<and> shows_red (hw calibrated)
   \<and> monitor calibrated = \<lparr>lastStats = zeroStats, cpuLoad = 0, initialized = True\<rparr>"
  by (simp add: calibrated_eval startup_def Let_def setRed_shows_red)

lemma flashing_eval:
  "isGreen flashing \<and> running flashing \<and> shows_green (hw flashing)
   \<and> flashTimer flashing = 50000000 \<and> currentFlashDuration flashing = 31
   \<and> cpuLoad (monitor flashing) = 50"
  by (simp add: flashing_def tick_unfold startup_def getCPULoad_def CPUMonitor_init_def
      zeroStats_def total_def ull_to_double_def ACTIVITY_SMOOTHING_def ACTIVITY_THRESHOLD_def
      BASE_FLASH_CHANCE_def CPU_SCALING_def FLASH_VARIATION_def exact_def all_zero_draws_def
      ms_between_def int_div_def MIN_PAUSE_BETWEEN_FLASHES_MS_def MIN_FLASH_DURATION_MS_def
      MAX_FLASH_DURATION_MS_def newFlashDuration_def baseDuration_def jitter_def
      randomVariation_def durationRange_def double_to_int_def
      shows_green_def shows_red_def setGreen_def setRed_def gpioWrite_def gpioPWM_def
      gpioSetMode_def gpioSetPWMfrequency_def gpioSetPWMrange_def PIN_A_def PIN_B_def
      GREEN_BRIGHTNESS_def untouched_def Let_def)

section \<open>The claims\<close>

text \<open>
  C1 (as amended). For every sequence of read results whose snapshots have counters that
  never decrease from one snapshot to the next, and whose seven counters add up to less
  than \<open>2 ^ 64\<close> in every snapshot, each value \<^verbatim>\<open>getCPULoad\<close> returns and the smoothed load
  it keeps are within \<open>[0, 100]\<close>, for every rounding of the \<^verbatim>\<open>double\<close> arithmetic that is
  monotone and exact on the representable numbers. No clamping is involved.
\<close>

theorem smoothed_load_in_range_without_wrap:
  assumes "binary64_rounding rnd"
    and "sorted_wrt counters_le (snapshots rs)"
    and "list_all sum_fits (snapshots rs)"
  shows "(\<forall>l \<in> set (fst (sample_all rnd rs (CPUMonitor_init uninit r0))). 0 \<le> l \<and> l \<le> 100)
       \<and> 0 \<le> cpuLoad (snd (sample_all rnd rs (CPUMonitor_init uninit r0)))
       \<and> cpuLoad (snd (sample_all rnd rs (CPUMonitor_init uninit r0))) \<le> 100"
proof -
  have "sampler_inv (CPUMonitor_init uninit r0) (snapshots rs)"
    using assms(2,3) by (simp add: sampler_inv_def CPUMonitor_init_def)
  then show ?thesis by (rule sample_all_bounds [OF assms(1)])
qed

theorem smoothed_load_in_range_without_wrap_witness:
  "binary64_rounding exact
   \<and> sorted_wrt counters_le (snapshots [Some (zeroStats\<lparr>user := 100, idle := 100\<rparr>), None,
                                         Some (zeroStats\<lparr>user := 150, idle := 100\<rparr>)])
   \<and> list_all sum_fits (snapshots [Some (zeroStats\<lparr>user := 100, idle := 100\<rparr>), None,
                                   Some (zeroStats\<lparr>user := 150, idle := 100\<rparr>)])
   \<and> list_all (\<lambda>l. 0 \<le> l \<and> l \<le> 100)
        (fst (sample_all exact [Some (zeroStats\<lparr>user := 100, idle := 100\<rparr>), None,
                                Some (zeroStats\<lparr>user := 150, idle := 100\<rparr>)]
                (CPUMonitor_init zeroStats None)))
   \<and> 0 \<le> cpuLoad (snd (sample_all exact [Some (zeroStats\<lparr>user := 100, idle := 100\<rparr>), None,
                                         Some (zeroStats\<lparr>user := 150, idle := 100\<rparr>)]
                         (CPUMonitor_init zeroStats None)))
   \<and> cpuLoad (snd (sample_all exact [Some (zeroStats\<lparr>user := 100, idle := 100\<rparr>), None,
                                     Some (zeroStats\<lparr>user := 150, idle := 100\<rparr>)]
                     (CPUMonitor_init zeroStats None))) \<le> 100
   \<and> fst (sample_all exact [Some (zeroStats\<lparr>user := 100, idle := 100\<rparr>), None,
                            Some (zeroStats\<lparr>user := 150, idle := 100\<rparr>)]
            (CPUMonitor_init zeroStats None)) = [0, 0, 50]"
proof -
  let ?rs = "[Some (zeroStats\<lparr>user := 100, idle := 100\<rparr>), None,
              Some (zeroStats\<lparr>user := 150, idle := 100\<rparr>)]"
  have h1: "binary64_rounding exact" by (rule exact_binary64)
  have h2: "sorted_wrt counters_le (snapshots ?rs)"
    by (simp add: counters_le_def zeroStats_def)
  have h3: "list_all sum_fits (snapshots ?rs)"
    by (simp add: sum_fits_def zeroStats_def)
  have v: "fst (sample_all exact ?rs (CPUMonitor_init zeroStats None)) = [0, 0, 50]"
    by (simp add: getCPULoad_def CPUMonitor_init_def zeroStats_def total_def
        ull_to_double_def ACTIVITY_SMOOTHING_def exact_def Let_def)
  show ?thesis
    using smoothed_load_in_range_without_wrap [OF h1 h2 h3, of zeroStats None] h1 h2 h3 v
    unfolding list_all_iff by blast
qed

text \<open>
  The claim as it stands fails when the sum of the counters wraps around: from the
  snapshot of zeros to one with \<open>user = 2 ^ 64 - 3\<close> and \<open>idle = 5\<close> no counter decreases,
  the code computes a total difference of \<open>2\<close> and an idle difference of \<open>5\<close>, and the
  smoothed load becomes \<open>-75\<close>.
\<close>

theorem smoothed_load_wraps_counterexample:
  "counters_le zeroStats (zeroStats\<lparr>user := 18446744073709551613, idle := 5\<rparr>)
   \<and> fst (sample_all exact [Some zeroStats, Some (zeroStats\<lparr>user := 18446744073709551613, idle := 5\<rparr>)]
            (CPUMonitor_init zeroStats None)) = [0, - 75]"
  by (simp add: counters_le_def getCPULoad_def CPUMonitor_init_def zeroStats_def total_def
      ull_to_double_def ACTIVITY_SMOOTHING_def exact_def Let_def)

text \<open>
  C2 (as amended). While a flash is on, an iteration ends it exactly when the whole
  milliseconds elapsed since it began are strictly more than the recorded duration,
  whatever the read result and the load: then the output is red and the end of the flash
  is recorded; with an elapsed time up to and including the duration the flash stays on
  and the hardware is not touched.
\<close>

theorem active_ends_when_elapsed_exceeds_duration:
  assumes "isGreen st"
  shows "(ms_between t (flashTimer st) > currentFlashDuration st \<longrightarrow>
            \<not> isGreen (tick rnd dis r t st) \<and> shows_red (hw (tick rnd dis r t st))
            \<and> lastFlashEndTime (tick rnd dis r t st) = t)
       \<and> (ms_between t (flashTimer st) \<le> currentFlashDuration st \<longrightarrow>
            isGreen (tick rnd dis r t st) \<and> hw (tick rnd dis r t st) = hw st)"
  using assms by (simp add: tick_unfold Let_def setRed_shows_red)

theorem active_ends_when_elapsed_exceeds_duration_witness:
  "isGreen flashing
   \<and> ms_between 82000000 (flashTimer flashing) > currentFlashDuration flashing
   \<and> \<not> isGreen (tick exact all_zero_draws None 82000000 flashing)
   \<and> shows_red (hw (tick exact all_zero_draws None 82000000 flashing))
   \<and> lastFlashEndTime (tick exact all_zero_draws None 82000000 flashing) = 82000000
   \<and> ms_between 70000000 (flashTimer flashing) \<le> currentFlashDuration flashing
   \<and> isGreen (tick exact all_zero_draws None 70000000 flashing)
   \<and> hw (tick exact all_zero_draws None 70000000 flashing) = hw flashing"
proof -
  have g: "isGreen flashing" using flashing_eval by blast
  have a: "ms_between 82000000 (flashTimer flashing) > currentFlashDuration flashing"
    using flashing_eval by (simp add: ms_between_def int_div_def)
  have b: "ms_between 70000000 (flashTimer flashing) \<le> currentFlashDuration flashing"
    using flashing_eval by (simp add: ms_between_def int_div_def)
  show ?thesis
    using active_ends_when_elapsed_exceeds_duration [OF g, of 82000000 exact all_zero_draws None]
      active_ends_when_elapsed_exceeds_duration [OF g, of 70000000 exact all_zero_draws None]
      g a b
    by blast
qed

text \<open>
  The claim as it stands fails when the elapsed time equals the duration: the flash of
  \<open>flashing\<close> began at 50 ms and lasts 31 ms, and the iteration at 81 ms leaves it on.
\<close>

theorem active_at_exact_duration_counterexample:
  "isGreen flashing
   \<and> ms_between 81000000 (flashTimer flashing) \<ge> currentFlashDuration flashing
   \<and> isGreen (tick exact all_zero_draws None 81000000 flashing)"
proof -
  have g: "isGreen flashing" using flashing_eval by blast
  have e: "ms_between 81000000 (flashTimer flashing) = currentFlashDuration flashing"
    using flashing_eval by (simp add: ms_between_def int_div_def)
  show ?thesis using g e by (simp add: tick_unfold Let_def)
qed

text \<open>
  C3. The signal handler, from any state of the program (so also in the middle of a
  flash), ends the process with status \<open>0\<close>, channel A at level \<open>0\<close>, channel B at duty cycle
  \<open>0\<close> and the library released; so does the loop when it finds \<open>running\<close> cleared; a
  signal after any number of iterations ends \<^verbatim>\<open>main\<close> in this way, and \<^verbatim>\<open>main\<close> never ends
  otherwise once the hardware is initialised. When the initialisation fails, \<^verbatim>\<open>main\<close>
  returns \<open>1\<close>.
\<close>

theorem shutdown_forces_off_and_releases:
  "clean_exit (signalHandler signum st)
   \<and> (\<not> running st \<longrightarrow> clean_exit (main_loop rnd dis evs st))
   \<and> (running st \<longrightarrow>
        clean_exit (main_loop rnd dis (map (\<lambda>(r, t). Tick r t) ts @ Signal signum # evs) st))
   \<and> (0 \<le> init_result \<longrightarrow>
        clean_exit (main rnd dis init_result hw0 uninit r0 t0 t1
                      (map (\<lambda>(r, t). Tick r t) ts @ Signal signum # evs)))
   \<and> (0 \<le> init_result \<and> main rnd dis init_result hw0 uninit r0 t0 t1 evs = Exited c h \<longrightarrow>
        c = 0 \<and> shows_off h \<and> \<not> held h)
   \<and> (init_result < 0 \<longrightarrow>
        main rnd dis init_result hw0 uninit r0 t0 t1 evs = Exited 1 hw0)"
proof -
  have a: "0 \<le> init_result \<longrightarrow>
        clean_exit (main rnd dis init_result hw0 uninit r0 t0 t1
                      (map (\<lambda>(r, t). Tick r t) ts @ Signal signum # evs))"
    using main_loop_signal [OF startup_running] by (simp add: main_def)
  have b: "0 \<le> init_result \<and> main rnd dis init_result hw0 uninit r0 t0 t1 evs = Exited c h \<longrightarrow>
        c = 0 \<and> shows_off h \<and> \<not> held h"
    using main_loop_exits_clean [of rnd dis evs "startup hw0 uninit r0 t0 t1" c h]
    by (simp add: main_def)
  show ?thesis
    using a b signalHandler_clean main_loop_stopped main_loop_signal
    by (simp add: main_def)
qed

theorem shutdown_forces_off_and_releases_witness:
  "clean_exit (signalHandler 15 flashing)
   \<and> \<not> running (flashing\<lparr>running := False\<rparr>)
   \<and> clean_exit (main_loop exact all_zero_draws [Tick None 60000000] (flashing\<lparr>running := False\<rparr>))
   \<and> running flashing
   \<and> clean_exit (main_loop exact all_zero_draws
                   (map (\<lambda>(r, t). Tick r t) [(None, 60000000)] @ Signal 2 # []) flashing)
   \<and> (0::int) \<le> 0
   \<and> clean_exit (main exact all_zero_draws 0 untouched zeroStats None 0 0
                   (map (\<lambda>(r, t). Tick r t) [(None, 60000000)] @ Signal 2 # []))
   \<and> main exact all_zero_draws 0 untouched zeroStats None 0 0 [Signal 2]
       = Exited 0 (gpioTerminate (setOff (hw (startup untouched zeroStats None 0 0))))
   \<and> shows_off (gpioTerminate (setOff (hw (startup untouched zeroStats None 0 0))))
   \<and> \<not> held (gpioTerminate (setOff (hw (startup untouched zeroStats None 0 0))))
   \<and> (- 1 :: int) < 0
   \<and> main exact all_zero_draws (- 1) untouched zeroStats None 0 0 [] = Exited 1 untouched"
proof -
  have r: "running flashing" using flashing_eval by blast
  have e: "main exact all_zero_draws 0 untouched zeroStats None 0 0 [Signal 2]
       = Exited 0 (gpioTerminate (setOff (hw (startup untouched zeroStats None 0 0))))"
    by (simp add: main_def signalHandler_def startup_running Let_def)
  note t1 = shutdown_forces_off_and_releases
    [of 15 flashing exact all_zero_draws "[Tick None 60000000]" "[(None, 60000000)]" 0
      untouched zeroStats None 0 0 0 "gpioTerminate (setOff (hw (startup untouched zeroStats None 0 0)))"]
  note t2 = shutdown_forces_off_and_releases
    [of 2 "flashing\<lparr>running := False\<rparr>" exact all_zero_draws "[Tick None 60000000]" "[]" 0
      untouched zeroStats None 0 0 0 "gpioTerminate (setOff (hw (startup untouched zeroStats None 0 0)))"]
  note t3 = shutdown_forces_off_and_releases
    [of 2 flashing exact all_zero_draws "[]" "[(None, 60000000)]" 0
      untouched zeroStats None 0 0 0 "gpioTerminate (setOff (hw (startup untouched zeroStats None 0 0)))"]
  note t4 = shutdown_forces_off_and_releases
    [of 2 flashing exact all_zero_draws "[Signal 2]" "[]" 0
      untouched zeroStats None 0 0 0 "gpioTerminate (setOff (hw (startup untouched zeroStats None 0 0)))"]
  note t5 = shutdown_forces_off_and_releases
    [of 2 flashing exact all_zero_draws "[]" "[]" "- 1" untouched zeroStats None 0 0]
  have c1: "clean_exit (signalHandler 15 flashing)" using t1 by blast
  have c2: "clean_exit (main_loop exact all_zero_draws [Tick None 60000000] (flashing\<lparr>running := False\<rparr>))"
    using t2 by simp
  have c3: "clean_exit (main_loop exact all_zero_draws
                   (map (\<lambda>(r, t). Tick r t) [(None, 60000000)] @ Signal 2 # []) flashing)"
    using t3 r by blast
  have c4: "clean_exit (main exact all_zero_draws 0 untouched zeroStats None 0 0
                   (map (\<lambda>(r, t). Tick r t) [(None, 60000000)] @ Signal 2 # []))"
    using t3 by simp
  have c5: "shows_off (gpioTerminate (setOff (hw (startup untouched zeroStats None 0 0))))
   \<and> \<not> held (gpioTerminate (setOff (hw (startup untouched zeroStats None 0 0))))"
    using t4 e by simp
  have c6: "main exact all_zero_draws (- 1) untouched zeroStats None 0 0 [] = Exited 1 untouched"
    using t5 by simp
  show ?thesis using c1 c2 c3 c4 c5 c6 e r by simp
qed

text \<open>
  C4. The duration is \<open>MIN_FLASH_DURATION_MS\<close> when the loop is entered, every duration
  computed for a new flash is within \<open>[MIN_FLASH_DURATION_MS, MAX_FLASH_DURATION_MS]\<close>, and
  the duration is within this interval after any number of iterations, so in
  particular whenever a flash is on.
\<close>

theorem flash_duration_within_bounds:
  "currentFlashDuration (startup hw0 uninit r0 t0 t1) = MIN_FLASH_DURATION_MS
   \<and> MIN_FLASH_DURATION_MS \<le> MAX_FLASH_DURATION_MS
   \<and> MIN_FLASH_DURATION_MS \<le> newFlashDuration rnd load r3
   \<and> newFlashDuration rnd load r3 \<le> MAX_FLASH_DURATION_MS
   \<and> MIN_FLASH_DURATION_MS \<le> currentFlashDuration (run_ticks rnd dis ts (startup hw0 uninit r0 t0 t1))
   \<and> currentFlashDuration (run_ticks rnd dis ts (startup hw0 uninit r0 t0 t1)) \<le> MAX_FLASH_DURATION_MS"
proof -
  have "MIN_FLASH_DURATION_MS \<le> MAX_FLASH_DURATION_MS"
    by (simp add: MIN_FLASH_DURATION_MS_def MAX_FLASH_DURATION_MS_def)
  then show ?thesis
    using run_ticks_duration_range [of "startup hw0 uninit r0 t0 t1" rnd dis ts]
      newFlashDuration_range [of rnd load r3]
    by (simp add: startup_duration)
qed

text \<open>
  C5. While no flash is on, an iteration whose load is not above \<open>ACTIVITY_THRESHOLD\<close> or
  whose time since the end of the last flash is not above \<open>MIN_PAUSE_BETWEEN_FLASHES_MS\<close>
  changes nothing but the monitor, whatever the random draws: no flash starts and the
  hardware is not touched, so the output stays red.
\<close>

theorem idle_stays_idle_below_threshold_or_debounced:
  assumes "\<not> isGreen st"
    and "fst (getCPULoad rnd r (monitor st)) \<le> ACTIVITY_THRESHOLD rnd
         \<or> ms_between t (lastFlashEndTime st) \<le> MIN_PAUSE_BETWEEN_FLASHES_MS"
  shows "tick rnd dis r t st = st\<lparr>monitor := snd (getCPULoad rnd r (monitor st))\<rparr>
       \<and> \<not> isGreen (tick rnd dis r t st)
       \<and> hw (tick rnd dis r t st) = hw st"
  using assms by (auto simp add: tick_unfold Let_def)

theorem idle_stays_idle_below_threshold_or_debounced_witness:
  "\<not> isGreen calibrated
   \<and> fst (getCPULoad exact (Some (zeroStats\<lparr>user := 50\<rparr>)) (monitor calibrated)) = 50
   \<and> ms_between 30000000 (lastFlashEndTime calibrated) \<le> MIN_PAUSE_BETWEEN_FLASHES_MS
   \<and> \<not> isGreen (tick exact all_zero_draws (Some (zeroStats\<lparr>user := 50\<rparr>)) 30000000 calibrated)
   \<and> hw (tick exact all_zero_draws (Some (zeroStats\<lparr>user := 50\<rparr>)) 30000000 calibrated)
       = hw calibrated
   \<and> shows_red (hw calibrated)"
proof -
  have g: "\<not> isGreen calibrated" using calibrated_fields by blast
  have l: "fst (getCPULoad exact (Some (zeroStats\<lparr>user := 50\<rparr>)) (monitor calibrated)) = 50"
    using calibrated_fields
    by (simp add: getCPULoad_def zeroStats_def total_def ull_to_double_def
        ACTIVITY_SMOOTHING_def exact_def Let_def)
  have d: "ms_between 30000000 (lastFlashEndTime calibrated) \<le> MIN_PAUSE_BETWEEN_FLASHES_MS"
    using calibrated_fields
    by (simp add: ms_between_def int_div_def MIN_PAUSE_BETWEEN_FLASHES_MS_def)
  have h: "fst (getCPULoad exact (Some (zeroStats\<lparr>user := 50\<rparr>)) (monitor calibrated))
             \<le> ACTIVITY_THRESHOLD exact
           \<or> ms_between 30000000 (lastFlashEndTime calibrated) \<le> MIN_PAUSE_BETWEEN_FLASHES_MS"
    using d by blast
  show ?thesis
    using idle_stays_idle_below_threshold_or_debounced [OF g h, of all_zero_draws]
      g l d calibrated_fields
    by blast
qed

text \<open>
  C6 (a defect of the code). The claim asks for an amount that is symmetric around zero,
  negative for some draws and within 15% of the duration range, which is \<open>5.7\<close>. Line 233
  subtracts half of the value drawn, not half of its maximum, so what the code adds is
  never negative (lemma \<open>jitter_never_negative\<close>), and the lower clamp of line 234 never
  takes effect (lemma \<open>lower_clamp_never_binds\<close>). Evaluated with a load of 50, whose base
  duration is 31: the draw \<open>0.1\<close>, in the lower half of \<open>[0, 1)\<close>, gives
  \<open>randomVariation = 1\<close>, the amount \<open>+1\<close> and the duration 32; the draw \<open>0\<close> gives the least
  amount, \<open>0\<close>; the draw \<open>0.99\<close> gives \<open>+6\<close>, above \<open>5.7\<close>.
\<close>

theorem jitter_is_one_sided_at_sample_draws:
  "baseDuration exact 50 = 31
   \<and> randomVariation exact (1 / 10) = 1
   \<and> jitter exact (1 / 10) = 1
   \<and> newFlashDuration exact 50 (1 / 10) = 32
   \<and> jitter exact 0 = 0
   \<and> newFlashDuration exact 50 0 = 31
   \<and> jitter exact (99 / 100) = 6
   \<and> \<not> \<bar>real_of_int (jitter exact (99 / 100))\<bar> \<le> 15 / 100 * real_of_int durationRange"
  by (simp add: newFlashDuration_def baseDuration_def jitter_def randomVariation_def
      durationRange_val double_to_int_def int_div_def exact_def
      MIN_FLASH_DURATION_MS_def MAX_FLASH_DURATION_MS_def Let_def)

text \<open>
  C7. With the initialisation flag unset, a successful read stores the snapshot, sets
  the flag and returns \<open>0\<close>, leaving the smoothed load as it is. The program enters the
  loop with no flash on and the red output, the first call of \<^verbatim>\<open>getCPULoad\<close> returns \<open>0\<close>
  whatever is read, and the first iteration starts no flash and leaves the output red.
\<close>

theorem first_read_calibrates_and_first_tick_stays_idle:
  assumes "binary64_rounding rnd"
  shows "(\<not> initialized m \<longrightarrow>
            getCPULoad rnd (Some s) m = (0, m\<lparr>initialized := True, lastStats := s\<rparr>))
       \<and> \<not> isGreen (startup hw0 uninit r0 t0 t1)
       \<and> shows_red (hw (startup hw0 uninit r0 t0 t1))
       \<and> fst (getCPULoad rnd r (monitor (startup hw0 uninit r0 t0 t1))) = 0
       \<and> \<not> isGreen (tick rnd dis r t (startup hw0 uninit r0 t0 t1))
       \<and> shows_red (hw (tick rnd dis r t (startup hw0 uninit r0 t0 t1)))"
proof -
  let ?st = "startup hw0 uninit r0 t0 t1"
  have m: "monitor ?st = CPUMonitor_init uninit r0" by (simp add: startup_def Let_def)
  have z: "fst (getCPULoad rnd r (monitor ?st)) = 0"
    unfolding m by (rule getCPULoad_uninitialized_zero) (simp_all add: CPUMonitor_init_def)
  have le: "fst (getCPULoad rnd r (monitor ?st)) \<le> ACTIVITY_THRESHOLD rnd"
    using z threshold_positive [OF assms] by simp
  have g: "\<not> isGreen ?st" using startup_idle_red by blast
  have "tick rnd dis r t ?st = ?st\<lparr>monitor := snd (getCPULoad rnd r (monitor ?st))\<rparr>"
    using g le by (simp add: tick_unfold Let_def)
  then have "\<not> isGreen (tick rnd dis r t ?st) \<and> hw (tick rnd dis r t ?st) = hw ?st"
    using g by simp
  then show ?thesis
    using startup_idle_red [of hw0 uninit r0 t0 t1] z by (simp add: getCPULoad_first)
qed

theorem first_read_calibrates_and_first_tick_stays_idle_witness:
  "binary64_rounding exact
   \<and> \<not> initialized (CPUMonitor_init zeroStats None)
   \<and> getCPULoad exact (Some (zeroStats\<lparr>user := 900, idle := 100\<rparr>)) (CPUMonitor_init zeroStats None)
       = (0, \<lparr>lastStats = zeroStats\<lparr>user := 900, idle := 100\<rparr>, cpuLoad = 0, initialized = True\<rparr>)
   \<and> \<not> isGreen (tick exact all_zero_draws (Some (zeroStats\<lparr>user := 900, idle := 100\<rparr>)) 25000000
                   (startup untouched zeroStats None 0 0))
   \<and> shows_red (hw (tick exact all_zero_draws (Some (zeroStats\<lparr>user := 900, idle := 100\<rparr>)) 25000000
                   (startup untouched zeroStats None 0 0)))"
proof -
  have i: "\<not> initialized (CPUMonitor_init zeroStats None)"
    by (simp add: CPUMonitor_init_def)
  have m: "(CPUMonitor_init zeroStats None)
             \<lparr>initialized := True, lastStats := zeroStats\<lparr>user := 900, idle := 100\<rparr>\<rparr>
           = \<lparr>lastStats = zeroStats\<lparr>user := 900, idle := 100\<rparr>, cpuLoad = 0, initialized = True\<rparr>"
    by (simp add: CPUMonitor_init_def)
  show ?thesis
    using first_read_calibrates_and_first_tick_stays_idle [OF exact_binary64,
        of "CPUMonitor_init zeroStats None" "zeroStats\<lparr>user := 900, idle := 100\<rparr>"
          untouched zeroStats None 0 0 "Some (zeroStats\<lparr>user := 900, idle := 100\<rparr>)"
          all_zero_draws 25000000]
      i m exact_binary64
    by simp
qed

text \<open>
  C8. After the calibration, a successful read whose seven counters sum to the same
  total as the stored snapshot returns the smoothed load as it was and changes nothing
  of the monitor but the stored snapshot, which becomes the one just read.
\<close>

theorem zero_total_delta_keeps_load_and_replaces_snapshot:
  assumes "initialized m" and "total s = total (lastStats m)"
  shows "getCPULoad rnd (Some s) m = (cpuLoad m, m\<lparr>lastStats := s\<rparr>)"
  using assms by (simp add: getCPULoad_def Let_def)

theorem zero_total_delta_keeps_load_and_replaces_snapshot_witness:
  "initialized \<lparr>lastStats = zeroStats\<lparr>user := 7\<rparr>, cpuLoad = 42, initialized = True\<rparr>
   \<and> total (zeroStats\<lparr>idle := 7\<rparr>) = total (zeroStats\<lparr>user := 7\<rparr>)
   \<and> getCPULoad exact (Some (zeroStats\<lparr>idle := 7\<rparr>))
        \<lparr>lastStats = zeroStats\<lparr>user := 7\<rparr>, cpuLoad = 42, initialized = True\<rparr>
       = (42, \<lparr>lastStats = zeroStats\<lparr>idle := 7\<rparr>, cpuLoad = 42, initialized = True\<rparr>)"
proof -
  let ?m = "\<lparr>lastStats = zeroStats\<lparr>user := 7\<rparr>, cpuLoad = 42, initialized = True\<rparr>"
  have i: "initialized ?m" by simp
  have t: "total (zeroStats\<lparr>idle := 7\<rparr>) = total (lastStats ?m)"
    by (simp add: total_def zeroStats_def)
  show ?thesis
    using zero_total_delta_keeps_load_and_replaces_snapshot [OF i t, of exact] t by simp
qed

text \<open>
  C9. When the read fails, \<^verbatim>\<open>getCPULoad\<close> returns the smoothed load it holds and leaves
  the monitor as it is; the iteration of the loop leaves the monitor and the flag
  \<open>running\<close> as they are, and the loop goes on to the next iteration.
\<close>

theorem read_failure_is_absorbed:
  "getCPULoad rnd None m = (cpuLoad m, m)
   \<and> monitor (tick rnd dis None t st) = monitor st
   \<and> running (tick rnd dis None t st) = running st
   \<and> (running st \<longrightarrow>
        main_loop rnd dis (Tick None t # evs) st = main_loop rnd dis evs (tick rnd dis None t st)
        \<and> main_loop rnd dis [Tick None t] st = Looping (tick rnd dis None t st))"
  by (simp add: tick_unfold getCPULoad_None Let_def)

theorem read_failure_is_absorbed_witness:
  "getCPULoad exact None (monitor flashing) = (50, monitor flashing)
   \<and> running flashing
   \<and> monitor (tick exact all_zero_draws None 60000000 flashing) = monitor flashing
   \<and> main_loop exact all_zero_draws [Tick None 60000000] flashing
       = Looping (tick exact all_zero_draws None 60000000 flashing)"
  using read_failure_is_absorbed [of exact "monitor flashing" all_zero_draws 60000000 flashing "[]"]
    flashing_eval
  by simp

text \<open>
  C10. From the monitor as the constructor leaves it, any number of failed reads followed
  by one more read, failed or not, return \<open>0\<close> every time; the failed reads leave the
  monitor as it was, with the initialisation flag unset, and the first successful read
  after them does the calibration.
\<close>

theorem zero_until_first_successful_read:
  "fst (sample_all rnd (replicate n None @ [r]) (CPUMonitor_init uninit r0)) = replicate (Suc n) 0
   \<and> snd (sample_all rnd (replicate n None) (CPUMonitor_init uninit r0)) = CPUMonitor_init uninit r0
   \<and> initialized (CPUMonitor_init uninit r0) = False
   \<and> snd (sample_all rnd (replicate n None @ [Some s]) (CPUMonitor_init uninit r0))
       = (CPUMonitor_init uninit r0)\<lparr>initialized := True, lastStats := s\<rparr>"
proof -
  let ?m = "CPUMonitor_init uninit r0"
  have i: "\<not> initialized ?m" "cpuLoad ?m = 0" by (simp_all add: CPUMonitor_init_def)
  have "fst (getCPULoad rnd r ?m) = 0" by (rule getCPULoad_uninitialized_zero [OF i])
  then have "fst (sample_all rnd (replicate n None @ [r]) ?m) = replicate n 0 @ [0]"
    using i by (simp add: sample_all_append sample_all_failures case_prod_unfold)
  then have a: "fst (sample_all rnd (replicate n None @ [r]) ?m) = replicate (Suc n) 0"
    by (simp add: replicate_append_same)
  have b: "snd (sample_all rnd (replicate n None @ [Some s]) ?m)
             = ?m\<lparr>initialized := True, lastStats := s\<rparr>"
    using i by (simp add: sample_all_append sample_all_failures case_prod_unfold getCPULoad_first)
  show ?thesis using a b i by (simp add: sample_all_failures)
qed

end
